theory Spec2Isabelle
  imports Complex_Main
begin

section \<open>The SIR notebooks chap12 and chap14\<close>

text \<open>
  The two notebooks define a discrete-time SIR epidemic model, a simulation loop and
  parameter sweeps. Both notebooks define \<open>make_system\<close>, \<open>update_func\<close>,
  \<open>run_simulation\<close> and \<open>calc_total_infected\<close>. \<open>make_system\<close> and
  \<open>calc_total_infected\<close> are the same text in both and are embedded once; the other two
  differ and carry the suffix of their notebook (\<open>12\<close>, \<open>14\<close>).

  Numbers: the notebooks compute with floating-point numbers. Following the data model of
  the specification (fractions of a population as real numbers) every such number is a
  \<open>real\<close> here, so all statements below are statements of exact arithmetic.
  Times are Python integers, here \<open>int\<close>.
\<close>

subsection \<open>State and System\<close>

text \<open>\<open>State(S=..., I=..., R=...)\<close>: three named values, in this order.\<close>

record State =
  S :: real
  I :: real
  R :: real

text \<open>\<open>System(init=..., t0=..., t_end=..., beta=..., gamma=...)\<close>.\<close>

record System =
  init :: State
  t0 :: int
  t_end :: int
  beta :: real
  gamma :: real

subsection \<open>Label-indexed tables\<close>

text \<open>
  \<open>TimeFrame\<close>, \<open>SweepSeries\<close> and \<open>SweepFrame\<close> are pandas tables addressed by label.
  A table is the list of its (label, value) entries in the order of insertion.
  Reading a label that is absent raises \<open>KeyError\<close>: the value \<open>None\<close>.
  Assigning to a label overwrites the entry in place when the label is present and
  appends a new entry otherwise.
\<close>

definition loc_get :: "('k \<times> 'v) list \<Rightarrow> 'k \<Rightarrow> 'v option" where
  "loc_get table k = map_of table k"

fun loc_set :: "('k \<times> 'v) list \<Rightarrow> 'k \<Rightarrow> 'v \<Rightarrow> ('k \<times> 'v) list" where
  "loc_set [] k v = [(k, v)]"
| "loc_set ((k', v') # table) k v =
     (if k' = k then (k', v) # table else (k', v') # loc_set table k v)"

type_synonym TimeFrame = "(int \<times> State) list"

type_synonym SweepSeries = "(real \<times> real) list"

text \<open>\<open>results.S\<close>: the column \<open>S\<close> of a TimeFrame, a series over the same labels.\<close>

definition column_S :: "TimeFrame \<Rightarrow> (int \<times> real) list" where
  "column_S results = map (\<lambda>(t, row). (t, S row)) results"

text \<open>
  A \<open>SweepFrame\<close> is kept as the list of its labelled columns, in column order, each column
  a series over the row labels. \<open>SweepFrame(columns=cs)\<close> has the column labels \<open>cs\<close> and
  no row. \<open>frame[c] = series\<close> stores the series in every column labelled \<open>c\<close>, and adds
  a column when there is none. The row labels of the table are those of its first column;
  a table without columns has no rows. (pandas pads the columns not yet assigned with NaN
  and aligns an assigned series to the row labels; in \<open>sweep_parameters\<close> every column is
  assigned, with series over the same labels.)
\<close>

type_synonym SweepFrame = "(real \<times> SweepSeries) list"

definition new_SweepFrame :: "real list \<Rightarrow> SweepFrame" where
  "new_SweepFrame cs = map (\<lambda>c. (c, [])) cs"

definition col_set :: "SweepFrame \<Rightarrow> real \<Rightarrow> SweepSeries \<Rightarrow> SweepFrame" where
  "col_set frame c series =
     (if c \<in> fst ` set frame
      then map (\<lambda>(c', col). if c' = c then (c', series) else (c', col)) frame
      else frame @ [(c, series)])"

definition frame_index :: "SweepFrame \<Rightarrow> real list" where
  "frame_index frame = (case frame of [] \<Rightarrow> [] | (c, col) # rest \<Rightarrow> map fst col)"

definition frame_columns :: "SweepFrame \<Rightarrow> real list" where
  "frame_columns frame = map fst frame"

definition frame_cell :: "SweepFrame \<Rightarrow> real \<Rightarrow> real \<Rightarrow> real option" where
  "frame_cell frame row c =
     (case loc_get frame c of None \<Rightarrow> None | Some col \<Rightarrow> loc_get col row)"

subsection \<open>Loops\<close>

text \<open>
  \<open>for x in xs: body\<close> over a loop state; an exception in the body ends the loop and the
  function with it.
\<close>

fun for_each :: "('a \<Rightarrow> 's \<Rightarrow> 's option) \<Rightarrow> 'a list \<Rightarrow> 's \<Rightarrow> 's option" where
  "for_each body [] s = Some s"
| "for_each body (x # xs) s =
     (case body x s of None \<Rightarrow> None | Some s' \<Rightarrow> for_each body xs s')"

text \<open>
  Modelled from the spec: \<open>linrange\<close> belongs to the modsim library, which is not among
  the sources; both notebooks import it and call it with a start and a stop.
  \<open>linrange(start, stop)\<close> is the sequence of the integers from \<open>start\<close> up to \<open>stop\<close>, the
  stop left out, and is empty when the stop is not after the start. This is the reading
  under which \<open>for i in linrange(t0, t_end)\<close> runs over "each integer step t from t0 to
  t_end - 1", as the specification states the loop of \<open>run_simulation\<close>, with an "empty
  iteration range" when \<open>t_end \<le> t0\<close>.
\<close>

definition linrange :: "int \<Rightarrow> int \<Rightarrow> int list" where
  "linrange start stop = [start..stop - 1]"

subsection \<open>make_system, update_func\<close>

definition make_system :: "real \<Rightarrow> real \<Rightarrow> System" where
  "make_system b g =
     (let init0 = \<lparr>S = 89, I = 1, R = 0\<rparr>;
          population = S init0 + I init0 + R init0;
          init1 = \<lparr>S = S init0 / population, I = I init0 / population,
                   R = R init0 / population\<rparr>;
          t0' = 0;
          t_end' = 7 * 14
      in \<lparr>init = init1, t0 = t0', t_end = t_end', beta = b, gamma = g\<rparr>)"

text \<open>chap12: \<open>update_func(state, t, system)\<close>.\<close>

definition update_func12 :: "State \<Rightarrow> int \<Rightarrow> System \<Rightarrow> State" where
  "update_func12 state t system =
     (let s = S state; i = I state; r = R state;
          infected = beta system * i * s;
          recovered = gamma system * i;
          s = s - infected;
          i = i + (infected - recovered);
          r = r + recovered
      in \<lparr>S = s, I = i, R = r\<rparr>)"

text \<open>chap14: \<open>update_func(state, system)\<close>.\<close>

definition update_func14 :: "State \<Rightarrow> System \<Rightarrow> State" where
  "update_func14 state system =
     (let s = S state; i = I state; r = R state;
          infected = beta system * i * s;
          recovered = gamma system * i;
          s = s - infected;
          i = i + (infected - recovered);
          r = r + recovered
      in \<lparr>S = s, I = i, R = r\<rparr>)"

subsection \<open>run_simulation\<close>

text \<open>
  The loop state is the frame together with a counter of the calls of \<open>update_func\<close>
  made so far. The counter is not in the source; it is there to state how many calls a
  run makes. \<open>run_simulation12\<close> and \<open>run_simulation14\<close> forget it.
  chap12 loops over \<open>linrange(system.t0, system.t_end-1)\<close>, chap14 over
  \<open>linrange(t0, t_end)\<close>.
\<close>

definition run_simulation12_counting ::
  "System \<Rightarrow> (State \<Rightarrow> int \<Rightarrow> System \<Rightarrow> State) \<Rightarrow> (TimeFrame \<times> nat) option" where
  "run_simulation12_counting system upd =
     (let frame = loc_set [] (t0 system) (init system)
      in for_each
           (\<lambda>t (frame, calls).
              case loc_get frame t of
                None \<Rightarrow> None
              | Some row \<Rightarrow> Some (loc_set frame (t + 1) (upd row t system), Suc calls))
           (linrange (t0 system) (t_end system - 1))
           (frame, 0))"

definition run_simulation12 ::
  "System \<Rightarrow> (State \<Rightarrow> int \<Rightarrow> System \<Rightarrow> State) \<Rightarrow> TimeFrame option" where
  "run_simulation12 system upd = map_option fst (run_simulation12_counting system upd)"

definition run_simulation14_counting ::
  "System \<Rightarrow> (State \<Rightarrow> System \<Rightarrow> State) \<Rightarrow> (TimeFrame \<times> nat) option" where
  "run_simulation14_counting system upd =
     (let frame = loc_set [] (t0 system) (init system)
      in for_each
           (\<lambda>i (frame, calls).
              case loc_get frame i of
                None \<Rightarrow> None
              | Some row \<Rightarrow> Some (loc_set frame (i + 1) (upd row system), Suc calls))
           (linrange (t0 system) (t_end system))
           (frame, 0))"

definition run_simulation14 ::
  "System \<Rightarrow> (State \<Rightarrow> System \<Rightarrow> State) \<Rightarrow> TimeFrame option" where
  "run_simulation14 system upd = map_option fst (run_simulation14_counting system upd)"

definition calc_total_infected :: "TimeFrame \<Rightarrow> System \<Rightarrow> real option" where
  "calc_total_infected results system =
     (case loc_get (column_S results) (t0 system) of
        None \<Rightarrow> None
      | Some s_start \<Rightarrow>
          (case loc_get (column_S results) (t_end system) of
             None \<Rightarrow> None
           | Some s_end \<Rightarrow> Some (s_start - s_end)))"

subsection \<open>Immunization and hand washing (chap12)\<close>

text \<open>
  \<open>add_immunization\<close> and \<open>add_hand_washing\<close> change the system they are given in place;
  here they return the changed system. The state of \<open>make_system\<close> is made anew at every
  call, so no other system shares it.
\<close>

definition add_immunization :: "System \<Rightarrow> real \<Rightarrow> System" where
  "add_immunization system fraction =
     (let system = system\<lparr>init := (init system)\<lparr>S := S (init system) - fraction\<rparr>\<rparr>;
          system = system\<lparr>init := (init system)\<lparr>R := R (init system) + fraction\<rparr>\<rparr>
      in system)"

text \<open>
  \<open>base ** e\<close> where it is a real number: the real power of a positive base; \<open>0 ** 0 = 1\<close>
  and \<open>0 ** e = 0\<close> for a positive \<open>e\<close>; the integer power of a negative base for an
  integral \<open>e\<close>. \<open>None\<close> otherwise: there the source raises ZeroDivisionError or yields
  inf, nan or a complex number.
\<close>

definition float_power :: "real \<Rightarrow> real \<Rightarrow> real option" where
  "float_power base e =
     (if 0 < base then Some (base powr e)
      else if base = 0 then (if e = 0 then Some 1 else if 0 < e then Some 0 else None)
      else if e = of_int \<lfloor>e\<rfloor> then Some (base powi \<lfloor>e\<rfloor>)
      else None)"

text \<open>
  \<open>logistic(x, A=0, B=1, C=1, M=0, K=1, Q=1, nu=1)\<close>, every parameter explicit.
  \<open>1/nu\<close> raises ZeroDivisionError for \<open>nu = 0\<close>, and the division by a power that is 0
  raises or yields inf or nan: \<open>None\<close>.
\<close>

definition logistic ::
  "real \<Rightarrow> real \<Rightarrow> real \<Rightarrow> real \<Rightarrow> real \<Rightarrow> real \<Rightarrow> real \<Rightarrow> real \<Rightarrow> real option" where
  "logistic x A B C M K Q nu =
     (let exponent = - B * (x - M);
          denom = C + Q * exp exponent
      in if nu = 0 then None
         else (case float_power denom (1 / nu) of
                 None \<Rightarrow> None
               | Some p \<Rightarrow> if p = 0 then None else Some (A + (K - A) / p)))"

text \<open>\<open>logistic(spending, M=500, K=0.2, B=0.01)\<close>; the other parameters at their defaults.\<close>

definition compute_factor :: "real \<Rightarrow> real option" where
  "compute_factor spending = logistic spending 0 0.01 1 500 0.2 1 1"

definition add_hand_washing :: "System \<Rightarrow> real \<Rightarrow> System option" where
  "add_hand_washing system spending =
     (case compute_factor spending of
        None \<Rightarrow> None
      | Some factor \<Rightarrow> Some (system\<lparr>beta := beta system * (1 - factor)\<rparr>))"

subsection \<open>Sweeps\<close>



definition sweep_beta :: "real list \<Rightarrow> real \<Rightarrow> SweepSeries option" where
  "sweep_beta beta_array g =
     for_each
       (\<lambda>b sweep.
          let system = make_system b g
          in case run_simulation14 system update_func14 of
               None \<Rightarrow> None
             | Some results \<Rightarrow>
                 (case calc_total_infected results system of
                    None \<Rightarrow> None
                  | Some tot \<Rightarrow> Some (loc_set sweep (beta system) tot)))
       beta_array []"

definition sweep_parameters :: "real list \<Rightarrow> real list \<Rightarrow> SweepFrame option" where
  "sweep_parameters beta_array gamma_array =
     for_each
       (\<lambda>g frame.
          case sweep_beta beta_array g of
            None \<Rightarrow> None
          | Some series \<Rightarrow> Some (col_set frame g series))
       gamma_array (new_SweepFrame gamma_array)"

subsection \<open>Notions used in the statements\<close>

text \<open>
  \<open>state_at step t st k\<close>: the state reached from \<open>st\<close> at time \<open>t\<close> by \<open>k\<close> applications
  of the update rule, the one at time \<open>t + j\<close> being \<open>step (t + j)\<close>.
\<close>

fun state_at :: "(int \<Rightarrow> State \<Rightarrow> State) \<Rightarrow> int \<Rightarrow> State \<Rightarrow> nat \<Rightarrow> State" where
  "state_at step t st 0 = st"
| "state_at step t st (Suc k) = step (t + int k) (state_at step t st k)"

text \<open>
  \<open>trajectory step t st n\<close>: the table with the labels \<open>t, ..., t + n\<close>, in this
  order, holding at \<open>t + k\<close> the state after \<open>k\<close> steps.
\<close>

definition trajectory :: "(int \<Rightarrow> State \<Rightarrow> State) \<Rightarrow> int \<Rightarrow> State \<Rightarrow> nat \<Rightarrow> TimeFrame" where
  "trajectory step t st n = map (\<lambda>k. (t + int k, state_at step t st k)) [0..<Suc n]"

text \<open>
  \<open>total_infected step system\<close>: \<open>S\<close> of the initial state minus \<open>S\<close> of the state that
  \<open>t_end - t0\<close> steps reach from it.
\<close>

definition total_infected :: "(int \<Rightarrow> State \<Rightarrow> State) \<Rightarrow> System \<Rightarrow> real" where
  "total_infected step system =
     S (init system)
       - S (state_at step (t0 system) (init system) (nat (t_end system - t0 system)))"


text \<open>The values of a sequence without repetition, each at its first occurrence.\<close>

definition first_occurrences :: "'a list \<Rightarrow> 'a list" where
  "first_occurrences xs = rev (remdups (rev xs))"

section \<open>Tables and the frame of a run\<close>

subsection \<open>Tables\<close>

lemma loc_set_fresh: "k \<notin> fst ` set table \<Longrightarrow> loc_set table k v = table @ [(k, v)]"
  by (induction table) auto

lemma loc_set_same: "loc_get table k = Some v \<Longrightarrow> loc_set table k v = table"
  by (induction table) (auto simp: loc_get_def split: if_splits)

lemma loc_get_distinct:
  "distinct (map fst table) \<Longrightarrow> (k, v) \<in> set table \<Longrightarrow> loc_get table k = Some v"
  unfolding loc_get_def by (rule map_of_is_SomeI)

lemma loc_get_graph: "x \<in> set xs \<Longrightarrow> loc_get (map (\<lambda>x. (x, f x)) xs) x = Some (f x)"
  by (induction xs) (auto simp: loc_get_def)

subsection \<open>The frame of a run\<close>

lemma upto_shift: "map (\<lambda>k. t + int k) [0..<Suc n] = [t..t + int n]"
proof (induction n)
  case 0
  show ?case by simp
next
  case (Suc n)
  have "[t..t + int (Suc n)] = [t..t + int n] @ [t + int (Suc n)]"
    using upto_rec2 [of t "t + int (Suc n)"] by (simp add: ac_simps)
  with Suc show ?case by simp
qed

lemma trajectory_keys: "map fst (trajectory step t st n) = [t..t + int n]"
  unfolding trajectory_def using upto_shift [of t n] by (simp add: comp_def del: upt_Suc)

lemma trajectory_length: "length (trajectory step t st n) = Suc n"
  by (simp add: trajectory_def)

lemma trajectory_get:
  assumes "k \<le> n"
  shows "loc_get (trajectory step t st n) (t + int k) = Some (state_at step t st k)"
proof (rule loc_get_distinct)
  show "distinct (map fst (trajectory step t st n))"
    by (simp add: trajectory_keys)
  show "(t + int k, state_at step t st k) \<in> set (trajectory step t st n)"
    unfolding trajectory_def using assms by (auto simp del: upt_Suc)
qed

lemma trajectory_get_None:
  assumes "t + int n < u"
  shows "loc_get (trajectory step t st n) u = None"
proof -
  have "u \<notin> set (map fst (trajectory step t st n))"
    using assms by (simp add: trajectory_keys)
  then show ?thesis
    by (simp add: loc_get_def map_of_eq_None_iff)
qed

lemma trajectory_entry:
  assumes "(u, row) \<in> set (trajectory step t st n)"
  shows "\<exists>k\<le>n. u = t + int k \<and> row = state_at step t st k"
  using assms unfolding trajectory_def by (auto simp del: upt_Suc)

lemma trajectory_last_fresh: "t + int n + 1 \<notin> fst ` set (trajectory step t st n)"
  unfolding trajectory_def by (auto simp: image_iff)

lemma trajectory_Suc:
  "trajectory step t st n @ [(t + int n + 1, step (t + int n) (state_at step t st n))]
     = trajectory step t st (Suc n)"
  by (simp add: trajectory_def ac_simps)

lemma state_at_invariant:
  assumes "P st" and "\<And>u row. P row \<Longrightarrow> P (step u row)"
  shows "P (state_at step t st k)"
  using assms by (induction k) auto

lemma for_each_frame:
  fixes body :: "int \<Rightarrow> TimeFrame \<times> nat \<Rightarrow> (TimeFrame \<times> nat) option"
  assumes body: "\<And>u frame calls. body u (frame, calls) =
      (case loc_get frame u of None \<Rightarrow> None
       | Some row \<Rightarrow> Some (loc_set frame (u + 1) (step u row), Suc calls))"
  shows "j \<le> n \<Longrightarrow>
    for_each body [t + int j..t + int n - 1] (trajectory step t st j, c) =
    Some (trajectory step t st n, c + (n - j))"
proof (induction "n - j" arbitrary: j c)
  case 0
  then have "j = n" by simp
  then show ?case by simp
next
  case (Suc d)
  then have lt: "j < n" by simp
  have range: "[t + int j..t + int n - 1] = (t + int j) # [t + int (Suc j)..t + int n - 1]"
    using lt by (simp add: upto_rec1 ac_simps)
  have get: "loc_get (trajectory step t st j) (t + int j) = Some (state_at step t st j)"
    by (rule trajectory_get) simp
  have set: "loc_set (trajectory step t st j) (t + int j + 1) (step (t + int j) (state_at step t st j))
      = trajectory step t st (Suc j)"
    by (simp only: loc_set_fresh [OF trajectory_last_fresh] trajectory_Suc)
  have "for_each body [t + int j..t + int n - 1] (trajectory step t st j, c)
      = for_each body [t + int (Suc j)..t + int n - 1] (trajectory step t st (Suc j), Suc c)"
    unfolding range using get set by (simp add: body)
  also have "\<dots> = Some (trajectory step t st n, Suc c + (n - Suc j))"
    using Suc.hyps(1) [of "Suc j" "Suc c"] Suc.hyps(2) lt by simp
  finally show ?case using lt by simp
qed

lemma steps_range:
  "[a..b - 1] = [a + int 0..a + int (nat (b - a)) - 1]"
  by (cases "a \<le> b") simp_all

lemma trajectory_0: "trajectory step t st 0 = [(t, st)]"
  by (simp add: trajectory_def)

lemma run_simulation12_counting_eq:
  "run_simulation12_counting system upd =
     Some (trajectory (\<lambda>t row. upd row t system) (t0 system) (init system)
             (nat (t_end system - 1 - t0 system)),
           nat (t_end system - 1 - t0 system))"
proof -
  let ?n = "nat (t_end system - 1 - t0 system)"
  let ?step = "\<lambda>t row. upd row t system"
  have "for_each
          (\<lambda>t (frame, calls).
              case loc_get frame t of
                None \<Rightarrow> None
              | Some row \<Rightarrow> Some (loc_set frame (t + 1) (upd row t system), Suc calls))
          [t0 system + int 0..t0 system + int ?n - 1]
          (trajectory ?step (t0 system) (init system) 0, 0)
        = Some (trajectory ?step (t0 system) (init system) ?n, 0 + (?n - 0))"
    by (rule for_each_frame) simp_all
  moreover have "linrange (t0 system) (t_end system - 1)
      = [t0 system + int 0..t0 system + int ?n - 1]"
    unfolding linrange_def by (rule steps_range)
  ultimately show ?thesis
    unfolding run_simulation12_counting_def by (simp add: trajectory_0)
qed

lemma run_simulation14_counting_eq:
  "run_simulation14_counting system upd =
     Some (trajectory (\<lambda>t row. upd row system) (t0 system) (init system)
             (nat (t_end system - t0 system)),
           nat (t_end system - t0 system))"
proof -
  let ?n = "nat (t_end system - t0 system)"
  let ?step = "\<lambda>(t::int) row. upd row system"
  have "for_each
          (\<lambda>i (frame, calls).
              case loc_get frame i of
                None \<Rightarrow> None
              | Some row \<Rightarrow> Some (loc_set frame (i + 1) (upd row system), Suc calls))
          [t0 system + int 0..t0 system + int ?n - 1]
          (trajectory ?step (t0 system) (init system) 0, 0)
        = Some (trajectory ?step (t0 system) (init system) ?n, 0 + (?n - 0))"
    by (rule for_each_frame) simp_all
  then show ?thesis
    unfolding run_simulation14_counting_def linrange_def
    by (simp add: trajectory_0 steps_range [of "t0 system" "t_end system"])
qed

lemma run_simulation12_eq:
  "run_simulation12 system upd =
     Some (trajectory (\<lambda>t row. upd row t system) (t0 system) (init system)
             (nat (t_end system - 1 - t0 system)))"
  by (simp add: run_simulation12_def run_simulation12_counting_eq)

lemma run_simulation14_eq:
  "run_simulation14 system upd =
     Some (trajectory (\<lambda>t row. upd row system) (t0 system) (init system)
             (nat (t_end system - t0 system)))"
  by (simp add: run_simulation14_def run_simulation14_counting_eq)

lemma trajectory_step:
  assumes "t \<le> v" and "v < u"
  shows "loc_get (trajectory step t st (nat (u - t))) v = Some (state_at step t st (nat (v - t)))
       \<and> loc_get (trajectory step t st (nat (u - t))) (v + 1)
           = Some (step v (state_at step t st (nat (v - t))))"
proof -
  let ?k = "nat (v - t)"
  have v: "v = t + int ?k" and v1: "v + 1 = t + int (Suc ?k)"
    using assms by simp_all
  have le: "?k \<le> nat (u - t)" "Suc ?k \<le> nat (u - t)"
    using assms by simp_all
  have "loc_get (trajectory step t st (nat (u - t))) (t + int ?k) = Some (state_at step t st ?k)"
    by (rule trajectory_get [OF le(1)])
  moreover have "loc_get (trajectory step t st (nat (u - t))) (t + int (Suc ?k))
      = Some (state_at step t st (Suc ?k))"
    by (rule trajectory_get [OF le(2)])
  ultimately show ?thesis
    using v v1 by (metis state_at.simps(2))
qed

lemma trajectory_series:
  assumes "t \<le> u"
  shows "loc_get (trajectory step t st (nat (u - t))) t = Some st
       \<and> (\<forall>v. t \<le> v \<and> v < u \<longrightarrow>
            (\<exists>row. loc_get (trajectory step t st (nat (u - t))) v = Some row
                 \<and> loc_get (trajectory step t st (nat (u - t))) (v + 1) = Some (step v row)))
       \<and> map fst (trajectory step t st (nat (u - t))) = [t..u]
       \<and> length (trajectory step t st (nat (u - t))) = nat (u - t + 1)"
proof -
  have "loc_get (trajectory step t st (nat (u - t))) (t + int 0) = Some (state_at step t st 0)"
    by (rule trajectory_get) simp
  then have first: "loc_get (trajectory step t st (nat (u - t))) t = Some st"
    by simp
  have keys: "map fst (trajectory step t st (nat (u - t))) = [t..u]"
    using assms by (simp add: trajectory_keys)
  have len: "length (trajectory step t st (nat (u - t))) = nat (u - t + 1)"
    using assms by (simp add: trajectory_length nat_add_distrib)
  show ?thesis
    using first keys len trajectory_step [of t _ u step st] by blast
qed

section \<open>The simulation\<close>

text \<open>
  C1. For a system with \<open>t0 < t_end\<close>, the loop of chap14 returns the frame that the
  claim describes: its entry at \<open>t0\<close> is \<open>init\<close>, its entry at \<open>t + 1\<close> is the update rule
  applied to the entry at \<open>t\<close> for every \<open>t\<close> from \<open>t0\<close> to \<open>t_end - 1\<close>, it has the labels
  \<open>t0, ..., t_end\<close> and so \<open>t_end - t0 + 1\<close> entries, and it is built by \<open>t_end - t0\<close> calls
  of the update rule. The loop of chap12 runs over \<open>linrange(t0, t_end - 1)\<close> and ends one
  step earlier: its frame has the labels \<open>t0, ..., t_end - 1\<close>, that is \<open>t_end - t0\<close>
  entries and none at \<open>t_end\<close>, built by \<open>t_end - t0 - 1\<close> calls. Both hold for every
  update function handed to the loops.
\<close>

theorem run_simulation_frames:
  assumes "t0 system < t_end system"
  shows "(\<exists>frame. run_simulation14_counting system upd14
                    = Some (frame, nat (t_end system - t0 system))
            \<and> run_simulation14 system upd14 = Some frame
            \<and> loc_get frame (t0 system) = Some (init system)
            \<and> (\<forall>t. t0 system \<le> t \<and> t < t_end system \<longrightarrow>
                  (\<exists>row. loc_get frame t = Some row
                       \<and> loc_get frame (t + 1) = Some (upd14 row system)))
            \<and> map fst frame = [t0 system..t_end system]
            \<and> length frame = nat (t_end system - t0 system + 1))
       \<and> (\<exists>frame. run_simulation12_counting system upd12
                    = Some (frame, nat (t_end system - t0 system - 1))
            \<and> run_simulation12 system upd12 = Some frame
            \<and> loc_get frame (t0 system) = Some (init system)
            \<and> (\<forall>t. t0 system \<le> t \<and> t < t_end system - 1 \<longrightarrow>
                  (\<exists>row. loc_get frame t = Some row
                       \<and> loc_get frame (t + 1) = Some (upd12 row t system)))
            \<and> map fst frame = [t0 system..t_end system - 1]
            \<and> length frame = nat (t_end system - t0 system)
            \<and> loc_get frame (t_end system) = None)"
proof -
  have le14: "t0 system \<le> t_end system" and le12: "t0 system \<le> t_end system - 1"
    using assms by simp_all
  let ?f12 = "trajectory (\<lambda>t row. upd12 row t system) (t0 system) (init system)
      (nat (t_end system - 1 - t0 system))"
  have calls: "nat (t_end system - 1 - t0 system) = nat (t_end system - t0 system - 1)"
    by (simp add: algebra_simps)
  have len: "nat (t_end system - 1 - t0 system + 1) = nat (t_end system - t0 system)"
    by simp
  have "t0 system + int (nat (t_end system - 1 - t0 system)) < t_end system"
    using assms by simp
  then have absent: "loc_get ?f12 (t_end system) = None"
    by (rule trajectory_get_None)
  have chap14: "\<exists>frame. run_simulation14_counting system upd14
                    = Some (frame, nat (t_end system - t0 system))
            \<and> run_simulation14 system upd14 = Some frame
            \<and> loc_get frame (t0 system) = Some (init system)
            \<and> (\<forall>t. t0 system \<le> t \<and> t < t_end system \<longrightarrow>
                  (\<exists>row. loc_get frame t = Some row
                       \<and> loc_get frame (t + 1) = Some (upd14 row system)))
            \<and> map fst frame = [t0 system..t_end system]
            \<and> length frame = nat (t_end system - t0 system + 1)"
    using trajectory_series [OF le14, of "\<lambda>t row. upd14 row system" "init system"]
    by (simp add: run_simulation14_counting_eq run_simulation14_eq)
  have chap12: "\<exists>frame. run_simulation12_counting system upd12
                    = Some (frame, nat (t_end system - t0 system - 1))
            \<and> run_simulation12 system upd12 = Some frame
            \<and> loc_get frame (t0 system) = Some (init system)
            \<and> (\<forall>t. t0 system \<le> t \<and> t < t_end system - 1 \<longrightarrow>
                  (\<exists>row. loc_get frame t = Some row
                       \<and> loc_get frame (t + 1) = Some (upd12 row t system)))
            \<and> map fst frame = [t0 system..t_end system - 1]
            \<and> length frame = nat (t_end system - t0 system)
            \<and> loc_get frame (t_end system) = None"
    using trajectory_series [OF le12, of "\<lambda>t row. upd12 row t system" "init system"] absent
    unfolding len
    by (simp only: run_simulation12_counting_eq run_simulation12_eq calls) blast
  show ?thesis
    using chap14 chap12 by (rule conjI)
qed

theorem run_simulation_frames_witness:
  "t0 (make_system (1/3) (1/4)) < t_end (make_system (1/3) (1/4))
   \<and> (\<exists>frame row. run_simulation14_counting (make_system (1/3) (1/4)) update_func14
                      = Some (frame, 98)
          \<and> loc_get frame 0 = Some \<lparr>S = 89/90, I = 1/90, R = 0\<rparr>
          \<and> loc_get frame 97 = Some row
          \<and> loc_get frame 98 = Some (update_func14 row (make_system (1/3) (1/4)))
          \<and> length frame = 99)
   \<and> (\<exists>frame. run_simulation12_counting (make_system (1/3) (1/4)) update_func12
                      = Some (frame, 97)
          \<and> loc_get frame 0 = Some \<lparr>S = 89/90, I = 1/90, R = 0\<rparr>
          \<and> loc_get frame 98 = None
          \<and> length frame = 98)"
proof -
  let ?sys = "make_system (1/3) (1/4)"
  have sys: "t0 ?sys = 0" "t_end ?sys = 98" "init ?sys = \<lparr>S = 89/90, I = 1/90, R = 0\<rparr>"
    by (simp_all add: make_system_def)
  have h: "t0 ?sys < t_end ?sys"
    by (simp add: sys)
  have in_run: "t0 ?sys \<le> 97 \<and> 97 < t_end ?sys"
    by (simp add: sys)
  note run = run_simulation_frames [OF h, of update_func14 update_func12]
  from run obtain f14 where f14:
    "run_simulation14_counting ?sys update_func14 = Some (f14, nat (t_end ?sys - t0 ?sys))"
    "loc_get f14 (t0 ?sys) = Some (init ?sys)"
    "\<forall>t. t0 ?sys \<le> t \<and> t < t_end ?sys \<longrightarrow>
        (\<exists>row. loc_get f14 t = Some row \<and> loc_get f14 (t + 1) = Some (update_func14 row ?sys))"
    "length f14 = nat (t_end ?sys - t0 ?sys + 1)"
    by blast
  from run obtain f12 where f12:
    "run_simulation12_counting ?sys update_func12
       = Some (f12, nat (t_end ?sys - t0 ?sys - 1))"
    "loc_get f12 (t0 ?sys) = Some (init ?sys)"
    "length f12 = nat (t_end ?sys - t0 ?sys)"
    "loc_get f12 (t_end ?sys) = None"
    by blast
  from f14(3) in_run obtain r14 where "loc_get f14 97 = Some r14"
    "loc_get f14 (97 + 1) = Some (update_func14 r14 ?sys)"
    by blast
  then have r14: "loc_get f14 97 = Some r14"
    "loc_get f14 98 = Some (update_func14 r14 ?sys)"
    by simp_all
  have c14: "run_simulation14_counting ?sys update_func14 = Some (f14, 98)"
    "loc_get f14 0 = Some \<lparr>S = 89/90, I = 1/90, R = 0\<rparr>" "length f14 = 99"
    using f14(1,2,4) by (simp_all add: sys)
  have c12: "run_simulation12_counting ?sys update_func12 = Some (f12, 97)"
    "loc_get f12 0 = Some \<lparr>S = 89/90, I = 1/90, R = 0\<rparr>" "loc_get f12 98 = None"
    "length f12 = 98"
    using f12 by (simp_all add: sys)
  show ?thesis
    by (intro conjI exI) (rule h c14 r14 c12)+
qed

text \<open>
  C3. For a system with \<open>t_end \<le> t0\<close>, \<open>run_simulation\<close> returns, without an error, the
  frame with the single entry \<open>init\<close> at \<open>t0\<close>, and makes no call of the update rule.
  The witness is the case \<open>t0 = 0\<close>, \<open>t_end = 0\<close>: the frame is \<open>{0: init}\<close>, of length 1.
\<close>

theorem run_simulation_degenerate:
  assumes "t_end system \<le> t0 system"
  shows "run_simulation12_counting system upd12 = Some ([(t0 system, init system)], 0)
       \<and> run_simulation12 system upd12 = Some [(t0 system, init system)]
       \<and> run_simulation14_counting system upd14 = Some ([(t0 system, init system)], 0)
       \<and> run_simulation14 system upd14 = Some [(t0 system, init system)]"
  using assms
  by (simp add: run_simulation12_counting_eq run_simulation12_eq
      run_simulation14_counting_eq run_simulation14_eq trajectory_0)

theorem run_simulation_degenerate_witness:
  "t_end \<lparr>init = \<lparr>S = 89/90, I = 1/90, R = 0\<rparr>, t0 = 0, t_end = 0, beta = 1/3, gamma = 1/4\<rparr>
     \<le> t0 \<lparr>init = \<lparr>S = 89/90, I = 1/90, R = 0\<rparr>, t0 = 0, t_end = 0, beta = 1/3, gamma = 1/4\<rparr>
   \<and> run_simulation12_counting
        \<lparr>init = \<lparr>S = 89/90, I = 1/90, R = 0\<rparr>, t0 = 0, t_end = 0, beta = 1/3, gamma = 1/4\<rparr>
        update_func12
      = Some ([(0, \<lparr>S = 89/90, I = 1/90, R = 0\<rparr>)], 0)
   \<and> run_simulation14_counting
        \<lparr>init = \<lparr>S = 89/90, I = 1/90, R = 0\<rparr>, t0 = 0, t_end = 0, beta = 1/3, gamma = 1/4\<rparr>
        update_func14
      = Some ([(0, \<lparr>S = 89/90, I = 1/90, R = 0\<rparr>)], 0)
   \<and> map_option length (run_simulation12
        \<lparr>init = \<lparr>S = 89/90, I = 1/90, R = 0\<rparr>, t0 = 0, t_end = 0, beta = 1/3, gamma = 1/4\<rparr>
        update_func12) = Some 1
   \<and> map_option length (run_simulation14
        \<lparr>init = \<lparr>S = 89/90, I = 1/90, R = 0\<rparr>, t0 = 0, t_end = 0, beta = 1/3, gamma = 1/4\<rparr>
        update_func14) = Some 1"
  using run_simulation_degenerate
    [of "\<lparr>init = \<lparr>S = 89/90, I = 1/90, R = 0\<rparr>, t0 = 0, t_end = 0, beta = 1/3, gamma = 1/4\<rparr>"
        update_func12 update_func14]
  by simp

lemma update_func12_total:
  "S (update_func12 state t system) + I (update_func12 state t system)
     + R (update_func12 state t system) = S state + I state + R state"
  by (simp add: update_func12_def Let_def)

lemma update_func14_total:
  "S (update_func14 state system) + I (update_func14 state system)
     + R (update_func14 state system) = S state + I state + R state"
  by (simp add: update_func14_def Let_def)

lemma trajectory_invariant:
  assumes "P st" and "\<And>u row. P row \<Longrightarrow> P (step u row)"
    and "(v, row) \<in> set (trajectory step t st n)"
  shows "P row"
proof -
  from assms(3) obtain k where "row = state_at step t st k"
    using trajectory_entry by blast
  then show ?thesis
    using state_at_invariant [of P st step t k] assms(1,2) by simp
qed

text \<open>
  C2. One application of the update rule leaves \<open>S + I + R\<close> unchanged, for every state
  and all rates, in both notebooks. So when the initial state sums to 1, \<open>run_simulation\<close>
  returns a frame and every entry of it sums to 1.
\<close>

theorem population_conserved:
  "S (update_func12 state t system) + I (update_func12 state t system)
     + R (update_func12 state t system) = S state + I state + R state
   \<and> S (update_func14 state system) + I (update_func14 state system)
     + R (update_func14 state system) = S state + I state + R state
   \<and> (S (init system) + I (init system) + R (init system) = 1 \<longrightarrow>
        (\<exists>frame. run_simulation12 system update_func12 = Some frame
           \<and> (\<forall>(u, row) \<in> set frame. S row + I row + R row = 1))
      \<and> (\<exists>frame. run_simulation14 system update_func14 = Some frame
           \<and> (\<forall>(u, row) \<in> set frame. S row + I row + R row = 1)))"
proof -
  let ?P = "\<lambda>row. S row + I row + R row = 1"
  have "\<forall>(u, row) \<in> set (trajectory (\<lambda>t row. update_func12 row t system) (t0 system)
      (init system) n). ?P row" if "?P (init system)" for n
  proof (clarify, rule trajectory_invariant [where P = ?P])
    show "?P (init system)" by (rule that)
    show "?P (update_func12 row u system)" if "?P row" for u row
      using that by (simp only: update_func12_total)
  qed
  then have run12: "?P (init system) \<longrightarrow>
      (\<exists>frame. run_simulation12 system update_func12 = Some frame
         \<and> (\<forall>(u, row) \<in> set frame. ?P row))"
    by (simp only: run_simulation12_eq) blast
  have "\<forall>(u, row) \<in> set (trajectory (\<lambda>t row. update_func14 row system) (t0 system)
      (init system) n). ?P row" if "?P (init system)" for n
  proof (clarify, rule trajectory_invariant [where P = ?P])
    show "?P (init system)" by (rule that)
    show "?P (update_func14 row system)" if "?P row" for u :: int and row
      using that by (simp only: update_func14_total)
  qed
  then have run14: "?P (init system) \<longrightarrow>
      (\<exists>frame. run_simulation14 system update_func14 = Some frame
         \<and> (\<forall>(u, row) \<in> set frame. ?P row))"
    by (simp only: run_simulation14_eq) blast
  show ?thesis
    using run12 run14 update_func12_total [of state t system]
      update_func14_total [of state system]
    by blast
qed

theorem population_conserved_witness:
  "S (init (make_system (1/3) (1/4))) + I (init (make_system (1/3) (1/4)))
     + R (init (make_system (1/3) (1/4))) = 1
   \<and> (\<exists>frame row. run_simulation12 (make_system (1/3) (1/4)) update_func12 = Some frame
          \<and> loc_get frame 97 = Some row \<and> S row + I row + R row = 1)
   \<and> (\<exists>frame row. run_simulation14 (make_system (1/3) (1/4)) update_func14 = Some frame
          \<and> loc_get frame 98 = Some row \<and> S row + I row + R row = 1)"
proof -
  let ?sys = "make_system (1/3) (1/4)"
  have sys: "t0 ?sys = 0" "t_end ?sys = 98"
    by (simp_all add: make_system_def)
  have h: "S (init ?sys) + I (init ?sys) + R (init ?sys) = 1"
    by (simp add: make_system_def)
  from population_conserved [of "init ?sys" 0 ?sys] h
  obtain f12 f14 where
    f12: "run_simulation12 ?sys update_func12 = Some f12"
      "\<forall>(u, row) \<in> set f12. S row + I row + R row = 1" and
    f14: "run_simulation14 ?sys update_func14 = Some f14"
      "\<forall>(u, row) \<in> set f14. S row + I row + R row = 1"
    by blast
  have "f12 = trajectory (\<lambda>t row. update_func12 row t ?sys) 0 (init ?sys) 97"
    using f12(1) by (simp add: run_simulation12_eq sys)
  moreover have "loc_get (trajectory step 0 st 97) (0 + int 97) = Some (state_at step 0 st 97)"
    for step st
    by (rule trajectory_get) simp
  ultimately obtain r12 where r12: "loc_get f12 97 = Some r12"
    by simp
  then have "(97, r12) \<in> set f12"
    unfolding loc_get_def by (rule map_of_SomeD)
  with f12(2) have s12: "S r12 + I r12 + R r12 = 1"
    by blast
  have "f14 = trajectory (\<lambda>t row. update_func14 row ?sys) 0 (init ?sys) 98"
    using f14(1) by (simp add: run_simulation14_eq sys)
  moreover have "loc_get (trajectory step 0 st 98) (0 + int 98) = Some (state_at step 0 st 98)"
    for step st
    by (rule trajectory_get) simp
  ultimately obtain r14 where r14: "loc_get f14 98 = Some r14"
    by simp
  then have "(98, r14) \<in> set f14"
    unfolding loc_get_def by (rule map_of_SomeD)
  with f14(2) have s14: "S r14 + I r14 + R r14 = 1"
    by blast
  show ?thesis
    using h f12(1) r12 s12 f14(1) r14 s14 by blast
qed

lemma update_func12_recovery:
  "beta system = 0 \<Longrightarrow> I (update_func12 row t system) = I row - gamma system * I row"
  by (simp add: update_func12_def Let_def)

lemma update_func14_recovery:
  "beta system = 0 \<Longrightarrow> I (update_func14 row system) = I row - gamma system * I row"
  by (simp add: update_func14_def Let_def)

lemma recovery_only_step:
  fixes g x :: real
  assumes "0 \<le> g" and "g \<le> 1" and "0 \<le> x"
  shows "0 \<le> x - g * x" and "x - g * x \<le> x" and "x - g * x = x \<Longrightarrow> g = 0 \<or> x = 0"
proof -
  have "g * x \<le> 1 * x"
    using assms by (intro mult_right_mono) simp_all
  then show "0 \<le> x - g * x" by simp
  have "0 \<le> g * x"
    using assms by simp
  then show "x - g * x \<le> x" by simp
  show "g = 0 \<or> x = 0" if "x - g * x = x"
    using that by simp
qed

lemma recovery_only_run:
  assumes step: "\<And>w row. I (step w row) = I row - g * I row"
    and g: "0 \<le> g" "g \<le> 1" and st: "0 \<le> I st" and v: "t \<le> v" "v < u"
  shows "\<exists>row row'. loc_get (trajectory step t st (nat (u - t))) v = Some row
           \<and> loc_get (trajectory step t st (nat (u - t))) (v + 1) = Some row'
           \<and> I row' \<le> I row \<and> (I row' = I row \<longrightarrow> g = 0 \<or> I row = 0)"
proof -
  let ?row = "state_at step t st (nat (v - t))"
  have nonneg: "0 \<le> I ?row"
  proof (rule state_at_invariant [where P = "\<lambda>row. 0 \<le> I row"])
    show "0 \<le> I st" by (rule st)
    show "0 \<le> I (step w row)" if "0 \<le> I row" for w row
      using recovery_only_step(1) [OF g that] by (simp only: step)
  qed
  have le: "I (step v ?row) \<le> I ?row"
    using recovery_only_step(2) [OF g nonneg] by (simp only: step)
  have eq: "I (step v ?row) = I ?row \<longrightarrow> g = 0 \<or> I ?row = 0"
    using recovery_only_step(3) [OF g nonneg] by (simp only: step) blast
  show ?thesis
    using trajectory_step [OF v, of step st] le eq by blast
qed

text \<open>
  C8, as amended. In a run with \<open>beta = 0\<close> and \<open>0 \<le> gamma \<le> 1\<close> that starts from a state
  with \<open>I \<ge> 0\<close>, the infected fraction never increases: the entries at \<open>t\<close> and \<open>t + 1\<close>
  exist for every step \<open>t\<close> of the run, \<open>I(t + 1) \<le> I(t)\<close>, and they are equal only if
  \<open>gamma = 0\<close> or \<open>I(t) = 0\<close>. The steps of the run are \<open>t0, ..., t_end - 1\<close> in chap14
  and \<open>t0, ..., t_end - 2\<close> in chap12.
\<close>

theorem infected_never_increases:
  assumes "beta system = 0" and "0 \<le> gamma system" and "gamma system \<le> 1"
    and "0 \<le> I (init system)"
  shows "(\<exists>frame. run_simulation12 system update_func12 = Some frame
            \<and> (\<forall>t. t0 system \<le> t \<and> t < t_end system - 1 \<longrightarrow>
                 (\<exists>row row'. loc_get frame t = Some row \<and> loc_get frame (t + 1) = Some row'
                     \<and> I row' \<le> I row
                     \<and> (I row' = I row \<longrightarrow> gamma system = 0 \<or> I row = 0))))
       \<and> (\<exists>frame. run_simulation14 system update_func14 = Some frame
            \<and> (\<forall>t. t0 system \<le> t \<and> t < t_end system \<longrightarrow>
                 (\<exists>row row'. loc_get frame t = Some row \<and> loc_get frame (t + 1) = Some row'
                     \<and> I row' \<le> I row
                     \<and> (I row' = I row \<longrightarrow> gamma system = 0 \<or> I row = 0))))"
proof -
  let ?f12 = "trajectory (\<lambda>t row. update_func12 row t system) (t0 system) (init system)
      (nat (t_end system - 1 - t0 system))"
  let ?f14 = "trajectory (\<lambda>t row. update_func14 row system) (t0 system) (init system)
      (nat (t_end system - t0 system))"
  have "\<exists>row row'. loc_get ?f12 t = Some row \<and> loc_get ?f12 (t + 1) = Some row'
      \<and> I row' \<le> I row \<and> (I row' = I row \<longrightarrow> gamma system = 0 \<or> I row = 0)"
    if "t0 system \<le> t \<and> t < t_end system - 1" for t
    using that assms by (intro recovery_only_run) (simp_all add: update_func12_recovery)
  moreover have "\<exists>row row'. loc_get ?f14 t = Some row \<and> loc_get ?f14 (t + 1) = Some row'
      \<and> I row' \<le> I row \<and> (I row' = I row \<longrightarrow> gamma system = 0 \<or> I row = 0)"
    if "t0 system \<le> t \<and> t < t_end system" for t
    using that assms by (intro recovery_only_run) (simp_all add: update_func14_recovery)
  ultimately show ?thesis
    by (simp only: run_simulation12_eq run_simulation14_eq) blast
qed

theorem infected_never_increases_witness:
  "beta (make_system 0 (1/4)) = 0 \<and> 0 \<le> gamma (make_system 0 (1/4))
   \<and> gamma (make_system 0 (1/4)) \<le> 1 \<and> 0 \<le> I (init (make_system 0 (1/4)))
   \<and> (\<exists>frame row row'. run_simulation12 (make_system 0 (1/4)) update_func12 = Some frame
          \<and> loc_get frame 0 = Some row \<and> loc_get frame 1 = Some row' \<and> I row' \<le> I row)
   \<and> (\<exists>frame row row'. run_simulation14 (make_system 0 (1/4)) update_func14 = Some frame
          \<and> loc_get frame 0 = Some row \<and> loc_get frame 1 = Some row' \<and> I row' \<le> I row)"
proof -
  let ?sys = "make_system 0 (1/4)"
  have h: "beta ?sys = 0" "0 \<le> gamma ?sys" "gamma ?sys \<le> 1" "0 \<le> I (init ?sys)"
    by (simp_all add: make_system_def)
  have in_run: "t0 ?sys \<le> 0 \<and> 0 < t_end ?sys"
    and in_run12: "t0 ?sys \<le> 0 \<and> 0 < t_end ?sys - 1"
    by (simp_all add: make_system_def)
  note run = infected_never_increases [OF h]
  from run obtain f12 where f12: "run_simulation12 ?sys update_func12 = Some f12"
    "\<forall>t. t0 ?sys \<le> t \<and> t < t_end ?sys - 1 \<longrightarrow>
       (\<exists>row row'. loc_get f12 t = Some row \<and> loc_get f12 (t + 1) = Some row'
           \<and> I row' \<le> I row \<and> (I row' = I row \<longrightarrow> gamma ?sys = 0 \<or> I row = 0))"
    by blast
  from run obtain f14 where f14: "run_simulation14 ?sys update_func14 = Some f14"
    "\<forall>t. t0 ?sys \<le> t \<and> t < t_end ?sys \<longrightarrow>
       (\<exists>row row'. loc_get f14 t = Some row \<and> loc_get f14 (t + 1) = Some row'
           \<and> I row' \<le> I row \<and> (I row' = I row \<longrightarrow> gamma ?sys = 0 \<or> I row = 0))"
    by blast
  from f12(2) in_run12 obtain a12 b12 where "loc_get f12 0 = Some a12"
    "loc_get f12 (0 + 1) = Some b12" "I b12 \<le> I a12"
    by blast
  then have r12: "loc_get f12 0 = Some a12" "loc_get f12 1 = Some b12" "I b12 \<le> I a12"
    by simp_all
  from f14(2) in_run obtain a14 b14 where "loc_get f14 0 = Some a14"
    "loc_get f14 (0 + 1) = Some b14" "I b14 \<le> I a14"
    by blast
  then have r14: "loc_get f14 0 = Some a14" "loc_get f14 1 = Some b14" "I b14 \<le> I a14"
    by simp_all
  show ?thesis
    using h f12(1) r12 f14(1) r14 by blast
qed

text \<open>
  The claim without the bound \<open>gamma \<le> 1\<close> fails: with \<open>gamma = 2\<close> the infected fraction
  goes from 1/90 to -1/90 and back up to 1/90. And without infected the fraction stays
  equal, at 0, while \<open>gamma = 1/4\<close>.
\<close>

theorem infected_increases_counterexample:
  "run_simulation14
     \<lparr>init = \<lparr>S = 89/90, I = 1/90, R = 0\<rparr>, t0 = 0, t_end = 2, beta = 0, gamma = 2\<rparr>
     update_func14
     = Some [(0, \<lparr>S = 89/90, I = 1/90, R = 0\<rparr>),
             (1, \<lparr>S = 89/90, I = - (1/90), R = 1/45\<rparr>),
             (2, \<lparr>S = 89/90, I = 1/90, R = 0\<rparr>)]
   \<and> run_simulation12
     \<lparr>init = \<lparr>S = 89/90, I = 1/90, R = 0\<rparr>, t0 = 0, t_end = 3, beta = 0, gamma = 2\<rparr>
     update_func12
     = Some [(0, \<lparr>S = 89/90, I = 1/90, R = 0\<rparr>),
             (1, \<lparr>S = 89/90, I = - (1/90), R = 1/45\<rparr>),
             (2, \<lparr>S = 89/90, I = 1/90, R = 0\<rparr>)]
   \<and> I \<lparr>S = 89/90, I = - (1/90), R = 1/45\<rparr> < I \<lparr>S = 89/90, I = 1/90, R = 0\<rparr>
   \<and> run_simulation14
     \<lparr>init = \<lparr>S = 1, I = 0, R = 0\<rparr>, t0 = 0, t_end = 1, beta = 0, gamma = 1/4\<rparr>
     update_func14
     = Some [(0, \<lparr>S = 1, I = 0, R = 0\<rparr>), (1, \<lparr>S = 1, I = 0, R = 0\<rparr>)]
   \<and> run_simulation12
     \<lparr>init = \<lparr>S = 1, I = 0, R = 0\<rparr>, t0 = 0, t_end = 2, beta = 0, gamma = 1/4\<rparr>
     update_func12
     = Some [(0, \<lparr>S = 1, I = 0, R = 0\<rparr>), (1, \<lparr>S = 1, I = 0, R = 0\<rparr>)]"
  by (simp add: run_simulation12_def run_simulation12_counting_def linrange_def
      run_simulation14_def run_simulation14_counting_def
      upto_rec1 loc_get_def update_func12_def update_func14_def Let_def)

section \<open>The update rule and the transforms\<close>

text \<open>
  C9. \<open>make_system\<close> returns, for all arguments, the initial state (89/90, 1/90, 0), which
  sums to 1, with t0 = 0 and t_end = 98, and stores beta and gamma as given.
\<close>

theorem make_system_value:
  "make_system b g =
     \<lparr>init = \<lparr>S = 89 / 90, I = 1 / 90, R = 0\<rparr>, t0 = 0, t_end = 98, beta = b, gamma = g\<rparr>
   \<and> S (init (make_system b g)) + I (init (make_system b g)) + R (init (make_system b g)) = 1"
  by (simp add: make_system_def)

text \<open>
  C10. A state without infected is a fixed point of the update rule, whatever S, R and
  the rates are (both notebooks).
\<close>

theorem update_func_disease_free:
  "update_func12 \<lparr>S = s, I = 0, R = r\<rparr> t system = \<lparr>S = s, I = 0, R = r\<rparr>
   \<and> update_func14 \<lparr>S = s, I = 0, R = r\<rparr> system = \<lparr>S = s, I = 0, R = r\<rparr>"
  by (simp add: update_func12_def update_func14_def)

lemma compute_factor_eq:
  "compute_factor spending = Some (0.2 / (1 + exp (- 0.01 * (spending - 500))))"
proof -
  have pos: "0 < 1 + exp (- 0.01 * (spending - 500))"
    by (simp add: add_pos_pos)
  then have "float_power (1 + exp (- 0.01 * (spending - 500))) 1
      = Some (1 + exp (- 0.01 * (spending - 500)))"
    by (simp add: float_power_def)
  then show ?thesis
    using pos by (simp add: compute_factor_def logistic_def Let_def)
qed


text \<open>
  C6. \<open>add_hand_washing\<close> replaces \<open>beta\<close> by \<open>beta * (1 - factor)\<close>, where \<open>factor\<close> is the
  generalized logistic function \<open>A + (K - A) / (C + Q * exp (- B * (spending - M))) ^ (1 / nu)\<close>
  at \<open>A = 0\<close>, \<open>C = 1\<close>, \<open>Q = 1\<close>, \<open>nu = 1\<close>, \<open>M = 500\<close>, \<open>K = 0.2\<close>, \<open>B = 0.01\<close>, that is
  \<open>0.2 / (1 + exp (- 0.01 * (spending - 500)))\<close>; it raises no error, and no other field of
  the system changes.
\<close>

theorem add_hand_washing_effect:
  "add_hand_washing system spending =
     Some (system\<lparr>beta := beta system *
       (1 - (0 + (0.2 - 0) / (1 + 1 * exp (- 0.01 * (spending - 500))) powr (1 / 1)))\<rparr>)
   \<and> compute_factor spending = Some (0.2 / (1 + exp (- 0.01 * (spending - 500))))
   \<and> (\<exists>changed. add_hand_washing system spending = Some changed
        \<and> beta changed = beta system * (1 - 0.2 / (1 + exp (- 0.01 * (spending - 500))))
        \<and> init changed = init system \<and> t0 changed = t0 system
        \<and> t_end changed = t_end system \<and> gamma changed = gamma system)"
proof -
  have factor: "compute_factor spending = Some (0.2 / (1 + exp (- 0.01 * (spending - 500))))"
    by (rule compute_factor_eq)
  have pos: "0 < 1 + exp (- 0.01 * (spending - 500))"
    by (simp add: add_pos_pos)
  have same: "0 + (0.2 - 0) / (1 + 1 * exp (- 0.01 * (spending - 500))) powr (1 / 1)
      = 0.2 / (1 + exp (- 0.01 * (spending - 500)))"
    using pos by simp
  show ?thesis
    unfolding same by (simp add: add_hand_washing_def factor)
qed

text \<open>
  C7. \<open>add_immunization\<close> takes the fraction from \<open>S\<close> of the initial state and adds it to
  \<open>R\<close>; \<open>I\<close>, \<open>beta\<close>, \<open>gamma\<close>, \<open>t0\<close> and \<open>t_end\<close> stay as they are, and so does the sum
  \<open>S + I + R\<close> of the initial state.
\<close>

theorem add_immunization_effect:
  "add_immunization system fraction =
     system\<lparr>init := \<lparr>S = S (init system) - fraction, I = I (init system),
                       R = R (init system) + fraction\<rparr>\<rparr>
   \<and> S (init (add_immunization system fraction)) = S (init system) - fraction
   \<and> R (init (add_immunization system fraction)) = R (init system) + fraction
   \<and> I (init (add_immunization system fraction)) = I (init system)
   \<and> beta (add_immunization system fraction) = beta system
   \<and> gamma (add_immunization system fraction) = gamma system
   \<and> t0 (add_immunization system fraction) = t0 system
   \<and> t_end (add_immunization system fraction) = t_end system
   \<and> S (init (add_immunization system fraction)) + I (init (add_immunization system fraction))
       + R (init (add_immunization system fraction))
     = S (init system) + I (init system) + R (init system)"
  by (simp add: add_immunization_def Let_def)

section \<open>Sweeps\<close>

subsection \<open>The series of one parameter\<close>

lemma first_occurrences_Nil: "first_occurrences [] = []"
  by (simp add: first_occurrences_def)

lemma first_occurrences_snoc:
  "first_occurrences (xs @ [x]) =
     (if x \<in> set xs then first_occurrences xs else first_occurrences xs @ [x])"
  by (simp add: first_occurrences_def)

lemma set_first_occurrences: "set (first_occurrences xs) = set xs"
  by (simp add: first_occurrences_def)

lemma distinct_first_occurrences: "distinct (first_occurrences xs)"
  by (simp add: first_occurrences_def)

lemma first_occurrences_distinct: "distinct xs \<Longrightarrow> first_occurrences xs = xs"
  by (simp add: first_occurrences_def distinct_remdups_id)

lemma for_each_sweep:
  assumes body: "\<And>x sweep. body x sweep = Some (loc_set sweep x (h x))"
  shows "for_each body xs (map (\<lambda>x. (x, h x)) (first_occurrences p))
       = Some (map (\<lambda>x. (x, h x)) (first_occurrences (p @ xs)))"
proof (induction xs arbitrary: p)
  case Nil
  show ?case by simp
next
  case (Cons x xs)
  let ?sweep = "map (\<lambda>x. (x, h x)) (first_occurrences p)"
  have set: "loc_set ?sweep x (h x) = map (\<lambda>x. (x, h x)) (first_occurrences (p @ [x]))"
  proof (cases "x \<in> set p")
    case True
    then have "loc_get ?sweep x = Some (h x)"
      by (intro loc_get_graph) (simp add: set_first_occurrences)
    then show ?thesis
      using True by (simp add: loc_set_same first_occurrences_snoc)
  next
    case False
    then have "x \<notin> fst ` set ?sweep"
      by (auto simp: set_first_occurrences)
    then show ?thesis
      using False by (simp add: loc_set_fresh first_occurrences_snoc)
  qed
  show ?case
    using Cons.IH [of "p @ [x]"] by (simp add: body set)
qed

lemma loc_get_column_S: "loc_get (column_S results) k = map_option S (loc_get results k)"
  by (induction results) (auto simp: loc_get_def column_S_def)

lemma calc_total_infected_trajectory:
  assumes "t0 system \<le> t_end system"
  shows "calc_total_infected
           (trajectory step (t0 system) (init system) (nat (t_end system - t0 system))) system
         = Some (total_infected step system)"
proof -
  let ?n = "nat (t_end system - t0 system)"
  let ?f = "trajectory step (t0 system) (init system) ?n"
  have "loc_get ?f (t0 system + int 0) = Some (state_at step (t0 system) (init system) 0)"
    by (rule trajectory_get) simp
  then have first: "loc_get ?f (t0 system) = Some (init system)"
    by simp
  have "loc_get ?f (t0 system + int ?n) = Some (state_at step (t0 system) (init system) ?n)"
    by (rule trajectory_get) simp
  then have last: "loc_get ?f (t_end system) = Some (state_at step (t0 system) (init system) ?n)"
    using assms by simp
  show ?thesis
    by (simp add: calc_total_infected_def loc_get_column_S first last total_infected_def)
qed



lemma make_system_fields:
  "t0 (make_system b g) = 0" "t_end (make_system b g) = 98" "beta (make_system b g) = b"
  "gamma (make_system b g) = g"
  by (simp_all add: make_system_def)

lemma sweep_beta_eq:
  "sweep_beta beta_array g =
     Some (map (\<lambda>b. (b, total_infected (\<lambda>t row. update_func14 row (make_system b g))
                          (make_system b g)))
             (first_occurrences beta_array))"
proof -
  let ?h = "\<lambda>b. total_infected (\<lambda>t row. update_func14 row (make_system b g)) (make_system b g)"
  have "for_each
      (\<lambda>b sweep.
          let system = make_system b g
          in case run_simulation14 system update_func14 of
               None \<Rightarrow> None
             | Some results \<Rightarrow>
                 (case calc_total_infected results system of
                    None \<Rightarrow> None
                  | Some tot \<Rightarrow> Some (loc_set sweep (beta system) tot)))
      beta_array (map (\<lambda>b. (b, ?h b)) (first_occurrences []))
    = Some (map (\<lambda>b. (b, ?h b)) (first_occurrences ([] @ beta_array)))"
  proof (rule for_each_sweep)
    fix b :: real and sweep :: SweepSeries
    have "calc_total_infected
        (trajectory (\<lambda>t row. update_func14 row (make_system b g))
          (t0 (make_system b g)) (init (make_system b g))
          (nat (t_end (make_system b g) - t0 (make_system b g))))
        (make_system b g) = Some (?h b)"
      by (rule calc_total_infected_trajectory) (simp add: make_system_fields)
    then show "(let system = make_system b g
          in case run_simulation14 system update_func14 of
               None \<Rightarrow> None
             | Some results \<Rightarrow>
                 (case calc_total_infected results system of
                    None \<Rightarrow> None
                  | Some tot \<Rightarrow> Some (loc_set sweep (beta system) tot)))
        = Some (loc_set sweep b (?h b))"
      by (simp add: Let_def run_simulation14_eq make_system_fields(3))
  qed
  then show ?thesis
    by (simp add: sweep_beta_def first_occurrences_Nil)
qed

lemma run_total_infected:
  assumes "t0 system \<le> t_end system"
  shows "\<exists>row0 row_end.
      loc_get (trajectory step (t0 system) (init system) (nat (t_end system - t0 system)))
        (t0 system) = Some row0
    \<and> loc_get (trajectory step (t0 system) (init system) (nat (t_end system - t0 system)))
        (t_end system) = Some row_end
    \<and> total_infected step system = S row0 - S row_end"
proof -
  let ?n = "nat (t_end system - t0 system)"
  let ?f = "trajectory step (t0 system) (init system) ?n"
  have "loc_get ?f (t0 system + int 0) = Some (state_at step (t0 system) (init system) 0)"
    by (rule trajectory_get) simp
  then have first: "loc_get ?f (t0 system) = Some (init system)"
    by simp
  have "loc_get ?f (t0 system + int ?n) = Some (state_at step (t0 system) (init system) ?n)"
    by (rule trajectory_get) simp
  then have last: "loc_get ?f (t_end system) = Some (state_at step (t0 system) (init system) ?n)"
    using assms by simp
  show ?thesis
    using first last by (simp add: total_infected_def)
qed


subsection \<open>The table of two parameters\<close>

lemma col_set_graph:
  assumes "g \<in> set cs"
  shows "col_set (map (\<lambda>c. (c, f c)) cs) g series
       = map (\<lambda>c. (c, if c = g then series else f c)) cs"
proof -
  have "g \<in> fst ` set (map (\<lambda>c. (c, f c)) cs)"
    using assms by (auto simp: image_iff)
  then show ?thesis
    by (simp add: col_set_def)
qed

lemma for_each_columns:
  assumes body: "\<And>g frame. body g frame = Some (col_set frame g (ser g))"
  shows "set xs \<subseteq> set cs \<Longrightarrow>
    for_each body xs (map (\<lambda>c. (c, f c)) cs)
      = Some (map (\<lambda>c. (c, if c \<in> set xs then ser c else f c)) cs)"
proof (induction xs arbitrary: f)
  case Nil
  show ?case by simp
next
  case (Cons x xs)
  then have x: "x \<in> set cs" and xs: "set xs \<subseteq> set cs"
    by simp_all
  have "for_each body (x # xs) (map (\<lambda>c. (c, f c)) cs)
      = for_each body xs (map (\<lambda>c. (c, if c = x then ser x else f c)) cs)"
    by (simp add: body col_set_graph [OF x])
  also have "\<dots> = Some (map (\<lambda>c. (c, if c \<in> set xs then ser c
      else if c = x then ser x else f c)) cs)"
    by (rule Cons.IH [OF xs])
  also have "\<dots> = Some (map (\<lambda>c. (c, if c \<in> set (x # xs) then ser c else f c)) cs)"
    by auto
  finally show ?case .
qed

lemma sweep_parameters_eq:
  "sweep_parameters beta_array gamma_array =
     Some (map (\<lambda>g. (g, map (\<lambda>b. (b, total_infected (\<lambda>t row. update_func14 row (make_system b g))
                                      (make_system b g)))
                         (first_occurrences beta_array)))
             gamma_array)"
proof -
  let ?ser = "\<lambda>g. map (\<lambda>b. (b, total_infected (\<lambda>t row. update_func14 row (make_system b g))
      (make_system b g))) (first_occurrences beta_array)"
  have "for_each
       (\<lambda>g frame.
          case sweep_beta beta_array g of
            None \<Rightarrow> None
          | Some series \<Rightarrow> Some (col_set frame g series))
       gamma_array (map (\<lambda>c. (c, [])) gamma_array)
     = Some (map (\<lambda>c. (c, if c \<in> set gamma_array then ?ser c else [])) gamma_array)"
    by (rule for_each_columns) (simp_all add: sweep_beta_eq)
  also have "\<dots> = Some (map (\<lambda>c. (c, ?ser c)) gamma_array)"
    by simp
  finally show ?thesis
    by (simp add: sweep_parameters_def new_SweepFrame_def)
qed

text \<open>
  C4, as amended. For all sequences \<open>beta_array\<close> and \<open>gamma_array\<close>, \<open>sweep_parameters\<close>
  returns, without an error, a table with one column for each element of \<open>gamma_array\<close>,
  labelled by it, in order. The column of \<open>g\<close> is \<open>sweep_beta beta_array g\<close>, so the cell
  of \<open>b\<close> and \<open>g\<close> is \<open>S\<close> at \<open>t0\<close> minus \<open>S\<close> at \<open>t_end\<close> of the simulation of
  \<open>make_system b g\<close>. The rows are the values of \<open>beta_array\<close>, each once, in the order of
  their first occurrence, when \<open>gamma_array\<close> is not empty: as many as \<open>beta_array\<close> is long
  when it has no repetition. The table has no row when \<open>gamma_array\<close> is empty.
\<close>

theorem sweep_parameters_table:
  "\<exists>frame. sweep_parameters beta_array gamma_array = Some frame
     \<and> frame_columns frame = gamma_array
     \<and> length (frame_columns frame) = length gamma_array
     \<and> (\<forall>g \<in> set gamma_array.
          \<exists>col. loc_get frame g = Some col \<and> sweep_beta beta_array g = Some col)
     \<and> (\<forall>(g, col) \<in> set frame. sweep_beta beta_array g = Some col)
     \<and> (\<forall>g \<in> set gamma_array. \<forall>b \<in> set beta_array.
          \<exists>results row0 row_end.
              run_simulation14 (make_system b g) update_func14 = Some results
            \<and> loc_get results (t0 (make_system b g)) = Some row0
            \<and> loc_get results (t_end (make_system b g)) = Some row_end
            \<and> frame_cell frame b g = Some (S row0 - S row_end))
     \<and> frame_index frame = (if gamma_array = [] then [] else first_occurrences beta_array)
     \<and> (gamma_array \<noteq> [] \<and> distinct beta_array \<longrightarrow>
          length (frame_index frame) = length beta_array)"
proof -
  let ?h = "\<lambda>b g. total_infected (\<lambda>t row. update_func14 row (make_system b g))
      (make_system b g)"
  let ?ser = "\<lambda>g. map (\<lambda>b. (b, ?h b g)) (first_occurrences beta_array)"
  let ?frame = "map (\<lambda>g. (g, ?ser g)) gamma_array"
  have run: "sweep_parameters beta_array gamma_array = Some ?frame"
    by (rule sweep_parameters_eq)
  have cols: "frame_columns ?frame = gamma_array"
    by (simp add: frame_columns_def comp_def)
  have col: "loc_get ?frame g = Some (?ser g)" if "g \<in> set gamma_array" for g
    using that by (rule loc_get_graph)
  have ser: "sweep_beta beta_array g = Some (?ser g)" for g
    by (rule sweep_beta_eq)
  have by_label: "\<forall>g \<in> set gamma_array.
      \<exists>col. loc_get ?frame g = Some col \<and> sweep_beta beta_array g = Some col"
    using col ser by blast
  have by_entry: "\<forall>(g, col) \<in> set ?frame. sweep_beta beta_array g = Some col"
    using ser by auto
  have cell: "frame_cell ?frame b g = Some (?h b g)"
    if "g \<in> set gamma_array" and "b \<in> set beta_array" for b g
  proof -
    have "loc_get (?ser g) b = Some (?h b g)"
      using that(2) by (intro loc_get_graph) (simp add: set_first_occurrences)
    then show ?thesis
      by (simp add: frame_cell_def col [OF that(1)])
  qed
  have summary: "\<exists>results row0 row_end.
        run_simulation14 (make_system b g) update_func14 = Some results
      \<and> loc_get results (t0 (make_system b g)) = Some row0
      \<and> loc_get results (t_end (make_system b g)) = Some row_end
      \<and> ?h b g = S row0 - S row_end" for b g
    using run_total_infected [of "make_system b g" "\<lambda>t row. update_func14 row (make_system b g)"]
    by (simp add: run_simulation14_eq make_system_fields)
  have cells: "\<forall>g \<in> set gamma_array. \<forall>b \<in> set beta_array.
      \<exists>results row0 row_end.
          run_simulation14 (make_system b g) update_func14 = Some results
        \<and> loc_get results (t0 (make_system b g)) = Some row0
        \<and> loc_get results (t_end (make_system b g)) = Some row_end
        \<and> frame_cell ?frame b g = Some (S row0 - S row_end)"
  proof (intro ballI)
    fix g b assume "g \<in> set gamma_array" and "b \<in> set beta_array"
    then have "frame_cell ?frame b g = Some (?h b g)"
      by (rule cell)
    with summary [of b g] show "\<exists>results row0 row_end.
          run_simulation14 (make_system b g) update_func14 = Some results
        \<and> loc_get results (t0 (make_system b g)) = Some row0
        \<and> loc_get results (t_end (make_system b g)) = Some row_end
        \<and> frame_cell ?frame b g = Some (S row0 - S row_end)"
      by (elim exE conjE, intro exI conjI) simp_all
  qed
  have index: "frame_index ?frame
      = (if gamma_array = [] then [] else first_occurrences beta_array)"
    by (cases gamma_array) (simp_all add: frame_index_def comp_def)
  have rows: "gamma_array \<noteq> [] \<and> distinct beta_array \<longrightarrow>
      length (frame_index ?frame) = length beta_array"
    using index first_occurrences_distinct [of beta_array] by auto
  show ?thesis
    using run cols by_label by_entry cells index rows
    by (intro exI [of _ ?frame] conjI) simp_all
qed

theorem sweep_parameters_table_witness:
  "(1/4 :: real) \<in> set [1/4] \<and> (1/3 :: real) \<in> set [1/3, 1/2]
   \<and> [1/4 :: real] \<noteq> [] \<and> distinct [1/3, 1/2 :: real]
   \<and> (\<exists>frame col results row0 row_end.
          sweep_parameters [1/3, 1/2] [1/4] = Some frame
        \<and> frame_columns frame = [1/4]
        \<and> length (frame_index frame) = 2
        \<and> loc_get frame (1/4) = Some col
        \<and> sweep_beta [1/3, 1/2] (1/4) = Some col
        \<and> run_simulation14 (make_system (1/3) (1/4)) update_func14 = Some results
        \<and> loc_get results 0 = Some row0
        \<and> loc_get results 98 = Some row_end
        \<and> frame_cell frame (1/3) (1/4) = Some (S row0 - S row_end))"
proof -
  have g: "(1/4 :: real) \<in> set [1/4]" and b: "(1/3 :: real) \<in> set [1/3, 1/2]"
    and ne: "[1/4 :: real] \<noteq> []" and d: "distinct [1/3, 1/2 :: real]"
    by simp_all
  from sweep_parameters_table [of "[1/3, 1/2]" "[1/4]"]
  obtain frame where frame: "sweep_parameters [1/3, 1/2] [1/4] = Some frame"
    "frame_columns frame = [1/4]"
    "\<forall>g \<in> set [1/4].
       \<exists>col. loc_get frame g = Some col \<and> sweep_beta [1/3, 1/2] g = Some col"
    "\<forall>g \<in> set [1/4]. \<forall>b \<in> set [1/3, 1/2].
       \<exists>results row0 row_end.
           run_simulation14 (make_system b g) update_func14 = Some results
         \<and> loc_get results (t0 (make_system b g)) = Some row0
         \<and> loc_get results (t_end (make_system b g)) = Some row_end
         \<and> frame_cell frame b g = Some (S row0 - S row_end)"
    "[1/4 :: real] \<noteq> [] \<and> distinct [1/3, 1/2 :: real] \<longrightarrow>
       length (frame_index frame) = length [1/3, 1/2 :: real]"
    by (elim exE conjE)
  from bspec [OF frame(3) g] obtain col where col: "loc_get frame (1/4) = Some col"
    "sweep_beta [1/3, 1/2] (1/4) = Some col"
    by (elim exE conjE)
  from bspec [OF bspec [OF frame(4) g] b] obtain results row0 row_end where
    "run_simulation14 (make_system (1/3) (1/4)) update_func14 = Some results"
    "loc_get results (t0 (make_system (1/3) (1/4))) = Some row0"
    "loc_get results (t_end (make_system (1/3) (1/4))) = Some row_end"
    "frame_cell frame (1/3) (1/4) = Some (S row0 - S row_end)"
    by (elim exE conjE)
  then have run: "run_simulation14 (make_system (1/3) (1/4)) update_func14 = Some results"
    "loc_get results 0 = Some row0" "loc_get results 98 = Some row_end"
    "frame_cell frame (1/3) (1/4) = Some (S row0 - S row_end)"
    by (simp_all add: make_system_fields)
  from frame(5) ne d have rows: "length (frame_index frame) = 2"
    by simp
  show ?thesis
    by (intro conjI exI) (rule g b ne d frame(1,2) rows col run)+
qed

text \<open>
  The number of rows is not always the length of \<open>beta_array\<close>: without a column there is
  no row, and a value given twice has one row.
\<close>

theorem sweep_parameters_rows_counterexample:
  "map_option (\<lambda>frame. length (frame_index frame)) (sweep_parameters [1] []) = Some 0
   \<and> length [1 :: real] = 1
   \<and> map_option (\<lambda>frame. length (frame_index frame)) (sweep_parameters [1, 1] [1]) = Some 1
   \<and> length [1, 1 :: real] = 2"
  by (simp add: sweep_parameters_eq frame_index_def first_occurrences_def)

end
